theory Spec2Isabelle
  imports Main
begin

section \<open>Sounds, files and observable events\<close>

text \<open>
  The timer of \<^verbatim>\<open>timer_v0.2.2.py\<close> talks to three devices: the audio mixer, the
  terminal and the log file. Each call the program makes to one of them is recorded as
  an event, in program order. The voice clips are named by the threshold they announce
  (the file names of the source are Korean strings).
\<close>

datatype notification = Half | Min15 | Min10 | Min5 | Min3 | Min1 | Sec30 | Sec10

datatype sound = Voice notification | TimerEnd | Beep | SetAgain

text \<open>
  \<^verbatim>\<open>os.path.exists\<close> may say no (\<open>Absent\<close>); a file that exists may still make
  the mixer raise (\<open>Broken\<close>).
\<close>

datatype file_status = Absent | Broken | Playable

datatype tty_attrs = Cooked | Cbreak

datatype event =
    Load sound
  | Play
  | AwaitIdle
  | AudioError
  | SoundMissing sound
  | Render int bool
  | PausedMsg
  | ResumedMsg
  | Sleep1
  | SleepTenth
  | SetCbreak
  | Restored tty_attrs
  | RestoreFailed
  | CompletionScreen
  | StopScreen int
  | LogSaveError

section \<open>The notification dispatcher\<close>

text \<open>\<^verbatim>\<open>is_overlapping_with_other_notifications\<close>: membership in a fixed list.\<close>

definition notification_times :: "int list" where
  "notification_times = [15 * 60, 10 * 60, 5 * 60, 3 * 60, 1 * 60, 30, 10]"

definition is_overlapping_with_other_notifications :: "int \<Rightarrow> bool" where
  "is_overlapping_with_other_notifications remaining_seconds =
     (remaining_seconds \<in> set notification_times)"

text \<open>
  The body of one \<^verbatim>\<open>if os.path.exists(f): load; play; return\<close> block. \<open>None\<close>
  means the file is absent and control falls through to the next check; otherwise the
  events are returned and the function ends. Only the 3-minute and 1-minute blocks wait
  for the mixer and play a second time.
\<close>

definition voice_clip :: "(sound \<Rightarrow> file_status) \<Rightarrow> notification \<Rightarrow> event list option" where
  "voice_clip files n =
     (case files (Voice n) of
        Absent \<Rightarrow> None
      | Broken \<Rightarrow> Some [Load (Voice n), AudioError]
      | Playable \<Rightarrow>
          Some (Load (Voice n) # Play #
                (if n = Min3 \<or> n = Min1 then [AwaitIdle, Play] else [])))"

text \<open>The conditions of \<^verbatim>\<open>play_time_notification\<close>, in the order of the source.\<close>

definition notification_checks :: "int \<Rightarrow> int \<Rightarrow> (bool \<times> notification) list" where
  "notification_checks remaining_seconds total_seconds =
     (let half_time = total_seconds div 2 in
      [(remaining_seconds = half_time \<and>
          \<not> is_overlapping_with_other_notifications remaining_seconds, Half),
       (remaining_seconds = 15 * 60 \<and> total_seconds \<ge> 30 * 60, Min15),
       (remaining_seconds = 10 * 60, Min10),
       (remaining_seconds = 5 * 60, Min5),
       (remaining_seconds = 3 * 60, Min3),
       (remaining_seconds = 1 * 60, Min1),
       (remaining_seconds = 30, Sec30),
       (remaining_seconds = 10, Sec10)])"

fun first_played :: "(sound \<Rightarrow> file_status) \<Rightarrow> (bool \<times> notification) list \<Rightarrow> event list" where
  "first_played files [] = []"
| "first_played files ((c, n) # rest) =
     (if c then (case voice_clip files n of
                   Some evs \<Rightarrow> evs
                 | None \<Rightarrow> first_played files rest)
      else first_played files rest)"

definition play_time_notification :: "(sound \<Rightarrow> file_status) \<Rightarrow> int \<Rightarrow> int \<Rightarrow> event list" where
  "play_time_notification files remaining_seconds total_seconds =
     first_played files (notification_checks remaining_seconds total_seconds)"

text \<open>The notifications a run of events has started: one per voice clip loaded.\<close>

fun fired :: "event list \<Rightarrow> notification list" where
  "fired [] = []"
| "fired (Load (Voice n) # es) = n # fired es"
| "fired (e # es) = fired es"

subsection \<open>The scheduler as the specification words it\<close>



text \<open>The remaining-seconds value at which a notification can fire in a session.\<close>

fun threshold :: "int \<Rightarrow> notification \<Rightarrow> int" where
  "threshold total_seconds Half = total_seconds div 2"
| "threshold total_seconds Min15 = 15 * 60"
| "threshold total_seconds Min10 = 10 * 60"
| "threshold total_seconds Min5 = 5 * 60"
| "threshold total_seconds Min3 = 3 * 60"
| "threshold total_seconds Min1 = 1 * 60"
| "threshold total_seconds Sec30 = 30"
| "threshold total_seconds Sec10 = 10"

section \<open>The timer object and the world around it\<close>

text \<open>
  What the program cannot decide: the platform, whether the terminal calls succeed,
  which sound files are there, whether the log file can be written.
\<close>

record environment =
  win32 :: bool
  tcgetattr_ok :: bool
  setcbreak_ok :: bool
  tcsetattr_ok :: bool
  sound_files :: "sound \<Rightarrow> file_status"
  log_writable :: bool

text \<open>
  One entry of \<^verbatim>\<open>logs/timer_log.json\<close>. The date and time stamps and the
  preformatted duration string are display data and are left out. The three values of
  \<open>status\<close> stand for the Korean words for started, completed and stopped.
\<close>

datatype log_status = Started | Finished | Halted

record log_entry =
  number :: "int option"
  timer_duration :: int
  task :: string
  status :: log_status
  completed :: bool
  remaining_seconds :: "int option"

text \<open>
  The background thread of \<^verbatim>\<open>start_reminder_thread\<close>, by where it stands in
  \<^verbatim>\<open>reminder_loop\<close>: in the first five-minute sleep, at the flag test at the top of
  the loop, in the double playback, in the sleep that ends an iteration, or returned.
\<close>

datatype reminder_pc = FirstWait | Checking | Playing | NextWait | Exited

text \<open>
  The fields of \<^verbatim>\<open>TerminalTimer\<close> that the countdown and the reminder use, followed
  by the world they act on: the terminal's mode, the reminder threads ever started
  (a thread's index is its identity), the log file (\<open>None\<close>: missing or unreadable)
  and the events so far.
\<close>

record timer =
  is_running :: bool
  is_paused :: bool
  old_settings :: "tty_attrs option"
  reminder_active :: bool
  reminder_thread :: "nat option"
  tty :: tty_attrs
  threads :: "reminder_pc list"
  log_file :: "log_entry list option"
  trace :: "event list"

definition emit :: "event list \<Rightarrow> timer \<Rightarrow> timer" where
  "emit evs st = st\<lparr>trace := trace st @ evs\<rparr>"

subsection \<open>Sound\<close>

definition play_sound :: "environment \<Rightarrow> sound \<Rightarrow> event list" where
  "play_sound env s =
     (case sound_files env s of
        Absent \<Rightarrow> [SoundMissing s]
      | Broken \<Rightarrow> [Load s, AudioError]
      | Playable \<Rightarrow> [Load s, Play, AwaitIdle])"

definition play_beep :: "environment \<Rightarrow> event list" where
  "play_beep env =
     (case sound_files env Beep of
        Absent \<Rightarrow> []
      | Broken \<Rightarrow> [Load Beep, AudioError]
      | Playable \<Rightarrow> [Load Beep, Play])"

subsection \<open>The session log\<close>

definition load_logs :: "timer \<Rightarrow> log_entry list" where
  "load_logs st = (case log_file st of None \<Rightarrow> [] | Some logs \<Rightarrow> logs)"

definition save_logs :: "environment \<Rightarrow> log_entry list \<Rightarrow> timer \<Rightarrow> timer" where
  "save_logs env logs st =
     (if log_writable env then st\<lparr>log_file := Some logs\<rparr> else emit [LogSaveError] st)"

text \<open>The \<^verbatim>\<open>for log in logs: if ...: update; break\<close> loop of the two log updates.\<close>

fun update_first :: "('a \<Rightarrow> bool) \<Rightarrow> ('a \<Rightarrow> 'a) \<Rightarrow> 'a list \<Rightarrow> 'a list" where
  "update_first p f [] = []"
| "update_first p f (x # xs) = (if p x then f x # xs else x # update_first p f xs)"

definition get_next_log_number :: "timer \<Rightarrow> int" where
  "get_next_log_number st =
     (case load_logs st of
        [] \<Rightarrow> 1
      | l # ls \<Rightarrow>
          fold max (map (\<lambda>e. case number e of None \<Rightarrow> 0 | Some k \<Rightarrow> k) ls)
                   (case number l of None \<Rightarrow> 0 | Some k \<Rightarrow> k) + 1)"

text \<open>The label written for an empty task (a Korean phrase in the source).\<close>

definition no_task_label :: string where
  "no_task_label = ''(no task)''"

definition log_timer_start :: "environment \<Rightarrow> int \<Rightarrow> string \<Rightarrow> timer \<Rightarrow> int \<times> timer" where
  "log_timer_start env total_seconds task_description st =
     (let logs = load_logs st;
          log_number = get_next_log_number st;
          log_entry = \<lparr>number = Some log_number, timer_duration = total_seconds,
                       task = (if task_description = [] then no_task_label
                               else task_description),
                       status = Started, completed = False, remaining_seconds = None\<rparr>
      in (log_number, save_logs env (logs @ [log_entry]) st))"

definition log_timer_complete :: "environment \<Rightarrow> int \<Rightarrow> timer \<Rightarrow> timer" where
  "log_timer_complete env log_number st =
     save_logs env
       (update_first (\<lambda>l. number l = Some log_number)
          (\<lambda>l. l\<lparr>status := Finished, completed := True\<rparr>) (load_logs st)) st"

definition log_timer_stop :: "environment \<Rightarrow> int \<Rightarrow> int \<Rightarrow> timer \<Rightarrow> timer" where
  "log_timer_stop env log_number remaining st =
     save_logs env
       (update_first (\<lambda>l. number l = Some log_number)
          (\<lambda>l. l\<lparr>status := Halted, completed := False, remaining_seconds := Some remaining\<rparr>)
          (load_logs st)) st"

text \<open>
  \<^verbatim>\<open>if log_number: f(log_number)\<close>: the argument is \<^verbatim>\<open>None\<close> by default, and
  \<^verbatim>\<open>None\<close> and \<open>0\<close> count as false.
\<close>

definition if_log_number :: "int option \<Rightarrow> (int \<Rightarrow> timer \<Rightarrow> timer) \<Rightarrow> timer \<Rightarrow> timer" where
  "if_log_number log_number f st =
     (case log_number of
        None \<Rightarrow> st
      | Some n \<Rightarrow> if n \<noteq> 0 then f n st else st)"

subsection \<open>The reminder thread\<close>

text \<open>
  \<^verbatim>\<open>start_reminder_thread\<close> sets the flag and starts a new thread; the handle
  \<^verbatim>\<open>self.reminder_thread\<close> then names the new thread only. The time stamp it also
  stores is read nowhere.
\<close>

definition start_reminder_thread :: "timer \<Rightarrow> timer" where
  "start_reminder_thread st =
     st\<lparr>reminder_active := True,
        threads := threads st @ [FirstWait],
        reminder_thread := Some (length (threads st))\<rparr>"

text \<open>
  \<^verbatim>\<open>stop_reminder_thread\<close> clears the flag and then joins the newest thread for at
  most one second. The join changes nothing: it returns when the thread has ended or
  when the second is over, whichever comes first.
\<close>

definition stop_reminder_thread :: "timer \<Rightarrow> timer" where
  "stop_reminder_thread st = st\<lparr>reminder_active := False\<rparr>"

text \<open>The double playback of one reminder round.\<close>

definition reminder_playback :: "environment \<Rightarrow> event list" where
  "reminder_playback env =
     (case sound_files env SetAgain of
        Absent \<Rightarrow> []
      | Broken \<Rightarrow> [Load SetAgain, AudioError]
      | Playable \<Rightarrow> [Load SetAgain, Play, AwaitIdle, Play, AwaitIdle])"

text \<open>
  One scheduling step of reminder thread \<open>i\<close>: a sleep ends, the flag is tested, or a
  playback runs to its end.
\<close>

definition thread_step :: "environment \<Rightarrow> nat \<Rightarrow> timer \<Rightarrow> timer" where
  "thread_step env i st =
     (if i < length (threads st) then
        (case threads st ! i of
           FirstWait \<Rightarrow> st\<lparr>threads := (threads st)[i := Checking]\<rparr>
         | Checking \<Rightarrow>
             st\<lparr>threads := (threads st)[i := (if reminder_active st then Playing else Exited)]\<rparr>
         | Playing \<Rightarrow> emit (reminder_playback env) (st\<lparr>threads := (threads st)[i := NextWait]\<rparr>)
         | NextWait \<Rightarrow> st\<lparr>threads := (threads st)[i := Checking]\<rparr>
         | Exited \<Rightarrow> st)
      else st)"

definition alive :: "timer \<Rightarrow> nat" where
  "alive st = length (filter (\<lambda>pc. pc \<noteq> Exited) (threads st))"

subsection \<open>Keyboard and pause\<close>

text \<open>What \<^verbatim>\<open>select\<close> and \<^verbatim>\<open>sys.stdin.read(1)\<close> give in one loop round.\<close>

datatype stdin_poll = Nothing | Typed char | EndOfFile | PollError

text \<open>\<^verbatim>\<open>str.lower\<close> on one character (ASCII letters).\<close>

definition py_lower :: "char \<Rightarrow> char" where
  "py_lower c =
     (case map_of (zip ''ABCDEFGHIJKLMNOPQRSTUVWXYZ'' ''abcdefghijklmnopqrstuvwxyz'') c of
        Some d \<Rightarrow> d
      | None \<Rightarrow> c)"

definition check_keyboard_input :: "environment \<Rightarrow> stdin_poll \<Rightarrow> string option" where
  "check_keyboard_input env k =
     (if win32 env then None
      else case k of
             Nothing \<Rightarrow> None
           | Typed c \<Rightarrow> Some [py_lower c]
           | EndOfFile \<Rightarrow> Some []
           | PollError \<Rightarrow> None)"

definition toggle_pause :: "timer \<Rightarrow> timer" where
  "toggle_pause st =
     (let st' = st\<lparr>is_paused := \<not> is_paused st\<rparr>
      in emit [if is_paused st' then PausedMsg else ResumedMsg] st')"

text \<open>
  \<^verbatim>\<open>display_timer\<close> prints one screen; what it shows is fixed by the remaining time
  and the pause flag it reads (total and task are the same all session long).
\<close>

definition display_timer :: "int \<Rightarrow> timer \<Rightarrow> timer" where
  "display_timer remaining st = emit [Render remaining (is_paused st)] st"

subsection \<open>The terminal\<close>

definition acquire_terminal :: "environment \<Rightarrow> timer \<Rightarrow> timer" where
  "acquire_terminal env st =
     (if win32 env then st
      else if \<not> tcgetattr_ok env then st
      else let st1 = st\<lparr>old_settings := Some (tty st)\<rparr>
           in if \<not> setcbreak_ok env then st1
              else emit [SetCbreak] (st1\<lparr>tty := Cbreak\<rparr>))"

definition restore_terminal :: "environment \<Rightarrow> timer \<Rightarrow> timer" where
  "restore_terminal env st =
     (case old_settings st of
        None \<Rightarrow> st
      | Some saved \<Rightarrow>
          if win32 env then st
          else if tcsetattr_ok env
               then emit [Restored saved] (st\<lparr>tty := saved, old_settings := None\<rparr>)
               else emit [RestoreFailed] st)"


definition acquisitions :: "event list \<Rightarrow> nat" where
  "acquisitions es = length (filter (\<lambda>e. e = SetCbreak) es)"

definition releases :: "event list \<Rightarrow> nat" where
  "releases es = length (filter (\<lambda>e. case e of Restored _ \<Rightarrow> True | _ \<Rightarrow> False) es)"


section \<open>The countdown\<close>

text \<open>
  One round of the \<^verbatim>\<open>while\<close> loop gets what the keyboard poll finds and what, if
  anything, cuts the round short: \<open>CtrlC\<close> is a \<^verbatim>\<open>KeyboardInterrupt\<close> raised while
  the round sleeps, \<open>Crash\<close> is any other exception, raised by the round's call of
  \<^verbatim>\<open>display_timer\<close>.
\<close>

datatype incident = Calm | CtrlC | Crash

type_synonym cycle = "stdin_poll \<times> incident"

datatype flow = Ongoing | Interrupted | Faulted

definition loop_body ::
  "environment \<Rightarrow> int \<Rightarrow> cycle \<Rightarrow> int \<Rightarrow> timer \<Rightarrow> flow \<times> int \<times> timer" where
  "loop_body env total_seconds c remaining st =
     (let ch = check_keyboard_input env (fst c);
          st1 = (if ch = Some ''p'' then display_timer remaining (toggle_pause st) else st)
      in if snd c = Crash then (Faulted, remaining, st1)
         else if \<not> is_paused st1 then
           (let st2 = display_timer remaining st1;
                st3 = emit (play_time_notification (sound_files env) remaining total_seconds) st2;
                st4 = (if remaining \<le> 5 then emit (play_beep env) st3 else st3)
            in if snd c = CtrlC then (Interrupted, remaining, st4)
               else (Ongoing, remaining - 1, emit [Sleep1] st4))
         else
           (let st2 = display_timer remaining st1
            in if snd c = CtrlC then (Interrupted, remaining, st2)
               else (Ongoing, remaining, emit [SleepTenth] st2)))"

text \<open>
  The loop runs on the rounds it is given. \<open>LoopStarved\<close> says that the rounds ran out
  while the loop condition still held: the session is not over.
\<close>

datatype loop_exit = LoopDone | LoopInterrupted | LoopFaulted | LoopStarved

fun countdown_loop ::
  "environment \<Rightarrow> int \<Rightarrow> cycle list \<Rightarrow> int \<Rightarrow> timer \<Rightarrow> loop_exit \<times> int \<times> timer" where
  "countdown_loop env total_seconds [] remaining st =
     (if remaining > 0 \<and> is_running st then (LoopStarved, remaining, st)
      else (LoopDone, remaining, st))"
| "countdown_loop env total_seconds (c # cs) remaining st =
     (if remaining > 0 \<and> is_running st then
        (case loop_body env total_seconds c remaining st of
           (Ongoing, remaining', st') \<Rightarrow> countdown_loop env total_seconds cs remaining' st'
         | (Interrupted, remaining', st') \<Rightarrow> (LoopInterrupted, remaining', st')
         | (Faulted, remaining', st') \<Rightarrow> (LoopFaulted, remaining', st'))
      else (LoopDone, remaining, st))"

text \<open>
  How a call of \<^verbatim>\<open>countdown\<close> ends. The source returns nothing; the outcome names the
  path taken: the completion branch ran to its end, the \<^verbatim>\<open>KeyboardInterrupt\<close> handler
  ran (with the value of \<^verbatim>\<open>remaining_seconds\<close> it printed and logged), another
  exception left through \<^verbatim>\<open>finally\<close>, the loop ended with \<^verbatim>\<open>is_running\<close> false, or
  the given rounds did not suffice.
\<close>

datatype outcome = Completed | Stopped int | Crashed | Abandoned | Unfinished

text \<open>The \<^verbatim>\<open>except KeyboardInterrupt\<close> block.\<close>

definition on_interrupt :: "environment \<Rightarrow> int option \<Rightarrow> int \<Rightarrow> timer \<Rightarrow> timer" where
  "on_interrupt env log_number remaining st =
     (let st1 = restore_terminal env (st\<lparr>is_running := False\<rparr>);
          st2 = emit [StopScreen remaining] st1
      in if_log_number log_number (\<lambda>n. log_timer_stop env n remaining) st2)"

text \<open>
  The completion branch, entered when the loop ends with \<^verbatim>\<open>is_running\<close> still true.
  \<open>ending\<close> says what cuts it short: \<open>Crash\<close> in printing the completion screen,
  \<open>CtrlC\<close> while the completion sound is awaited.
\<close>

definition interrupted_sound :: "environment \<Rightarrow> sound \<Rightarrow> event list" where
  "interrupted_sound env s =
     (case sound_files env s of
        Absent \<Rightarrow> [SoundMissing s]
      | Broken \<Rightarrow> [Load s, AudioError]
      | Playable \<Rightarrow> [Load s, Play])"

definition complete :: "environment \<Rightarrow> int option \<Rightarrow> timer \<Rightarrow> timer" where
  "complete env log_number st =
     (let st1 = emit (CompletionScreen # play_sound env TimerEnd) st;
          st2 = if_log_number log_number (log_timer_complete env) st1
      in start_reminder_thread st2)"

definition countdown ::
  "environment \<Rightarrow> int \<Rightarrow> int option \<Rightarrow> cycle list \<Rightarrow> incident \<Rightarrow> timer \<Rightarrow> outcome \<times> timer" where
  "countdown env total_seconds log_number cycles ending st =
     (let st0 = acquire_terminal env (st\<lparr>is_running := True, is_paused := False\<rparr>)
      in case countdown_loop env total_seconds cycles total_seconds st0 of
           (LoopStarved, remaining, st1) \<Rightarrow> (Unfinished, st1)
         | (LoopFaulted, remaining, st1) \<Rightarrow> (Crashed, restore_terminal env st1)
         | (LoopInterrupted, remaining, st1) \<Rightarrow>
             (Stopped remaining,
              restore_terminal env (on_interrupt env log_number remaining st1))
         | (LoopDone, remaining, st1) \<Rightarrow>
             if is_running st1 then
               (let st2 = restore_terminal env st1
                in case ending of
                     Crash \<Rightarrow> (Crashed, restore_terminal env st2)
                   | CtrlC \<Rightarrow>
                       (Stopped remaining,
                        restore_terminal env
                          (on_interrupt env log_number remaining
                             (emit (CompletionScreen # interrupted_sound env TimerEnd) st2)))
                   | Calm \<Rightarrow> (Completed, restore_terminal env (complete env log_number st2)))
             else (Abandoned, restore_terminal env st1))"

text \<open>
  One pass of the loop of \<^verbatim>\<open>main\<close>, from \<^verbatim>\<open>get_user_input\<close> to the end of
  \<^verbatim>\<open>countdown\<close>. \<^verbatim>\<open>get_user_input\<close> stops the reminder first and then reads the task
  and the duration, which are taken as given here; three beeps one second apart go
  before the countdown.
\<close>

definition get_user_input :: "timer \<Rightarrow> timer" where
  "get_user_input st = stop_reminder_thread st"

definition session ::
  "environment \<Rightarrow> int \<Rightarrow> string \<Rightarrow> cycle list \<Rightarrow> incident \<Rightarrow> timer \<Rightarrow> outcome \<times> timer" where
  "session env total_seconds task_description cycles ending st =
     (let st1 = get_user_input st;
          (log_number, st2) = log_timer_start env total_seconds task_description st1;
          st3 = emit (concat (replicate 3 (play_beep env @ [Sleep1]))) st2
      in countdown env total_seconds (Some log_number) cycles ending st3)"

text \<open>The round in which nothing happens: no key, no interrupt.\<close>

definition idle :: cycle where
  "idle = (Nothing, Calm)"

text \<open>What one running round at \<open>r\<close> seconds adds to the trace.\<close>

definition tick_events :: "environment \<Rightarrow> int \<Rightarrow> int \<Rightarrow> event list" where
  "tick_events env total_seconds r =
     Render r False # play_time_notification (sound_files env) r total_seconds @
     (if r \<le> 5 then play_beep env else []) @ [Sleep1]"

text \<open>The trace of \<open>k\<close> running rounds in a row, the first at \<open>r\<close> seconds.\<close>

fun run_events :: "environment \<Rightarrow> int \<Rightarrow> nat \<Rightarrow> int \<Rightarrow> event list" where
  "run_events env total_seconds 0 r = []"
| "run_events env total_seconds (Suc k) r =
     tick_events env total_seconds r @ run_events env total_seconds k (r - 1)"

definition ticks :: "event list \<Rightarrow> nat" where
  "ticks es = length (filter (\<lambda>e. e = Sleep1) es)"

text \<open>
  What a pause at \<open>r\<close> seconds adds to the trace when \<open>k\<close> further rounds go by
  before the next pause key: the message and the screen of the toggle, then one screen
  and one short sleep for the round of the key and for each further round.
\<close>

definition pause_events :: "int \<Rightarrow> nat \<Rightarrow> event list" where
  "pause_events r k =
     PausedMsg # Render r True # concat (replicate (Suc k) [Render r True, SleepTenth])"

text \<open>
  A machine on which every call goes through and every sound file is present, and the
  timer as \<^verbatim>\<open>__init__\<close> leaves it (no log file yet).
\<close>

definition sound_env :: environment where
  "sound_env = \<lparr>win32 = False, tcgetattr_ok = True, setcbreak_ok = True,
                tcsetattr_ok = True, sound_files = (\<lambda>_. Playable), log_writable = True\<rparr>"

definition fresh_timer :: timer where
  "fresh_timer = \<lparr>is_running = False, is_paused = False, old_settings = None,
                  reminder_active = False, reminder_thread = None, tty = Cooked,
                  threads = [], log_file = None, trace = []\<rparr>"

text \<open>
  The state in which the countdown of a pass of the main loop begins: the reminder has
  been stopped, the start has been logged, the three beeps are over.
\<close>

definition session_start :: "environment \<Rightarrow> int \<Rightarrow> string \<Rightarrow> timer \<Rightarrow> timer" where
  "session_start env total_seconds task_description st =
     emit (concat (replicate 3 (play_beep env @ [Sleep1])))
       (snd (log_timer_start env total_seconds task_description (get_user_input st)))"

text \<open>\<open>k\<close> scheduling steps of reminder thread \<open>i\<close> in a row.\<close>

definition thread_steps :: "environment \<Rightarrow> nat \<Rightarrow> nat \<Rightarrow> timer \<Rightarrow> timer" where
  "thread_steps env i k st = (thread_step env i ^^ k) st"


text \<open>
  Two sessions on the same timer: one second long, then two seconds long, both run to
  completion with no reminder thread scheduled in between (each is asleep for five
  minutes). And the first of them followed by two steps of its reminder thread, which
  bring the thread into its first playback.
\<close>

definition first_run :: timer where
  "first_run = snd (session sound_env 1 ''a'' [idle] Calm fresh_timer)"

definition second_run :: timer where
  "second_run = snd (session sound_env 2 ''b'' [idle, idle] Calm first_run)"


section \<open>Facts about the dispatcher\<close>

lemma fired_append: "fired (xs @ ys) = fired xs @ fired ys"
  by (induction xs rule: fired.induct) simp_all

lemma fired_voice_clip:
  "voice_clip files n = Some evs \<Longrightarrow> fired evs = [n]"
  by (auto simp: voice_clip_def split: file_status.splits)

lemma first_played_fired_le: "length (fired (first_played files cs)) \<le> 1"
proof (induction cs)
  case Nil
  show ?case by simp
next
  case (Cons a cs)
  obtain c n where a: "a = (c, n)" by (cases a)
  show ?case
  proof (cases "c \<and> voice_clip files n \<noteq> None")
    case True
    then obtain evs where "voice_clip files n = Some evs" by auto
    with True a show ?thesis by (simp add: fired_voice_clip)
  next
    case False
    with a Cons.IH show ?thesis by auto
  qed
qed

lemma first_played_fired_threshold:
  "n \<in> set (fired (first_played files cs)) \<Longrightarrow> (True, n) \<in> set cs"
proof (induction cs)
  case Nil
  then show ?case by simp
next
  case (Cons a cs)
  obtain c m where a: "a = (c, m)" by (cases a)
  show ?case
  proof (cases "c \<and> voice_clip files m \<noteq> None")
    case True
    then obtain evs where e: "voice_clip files m = Some evs" by auto
    with True a Cons.prems have "n = m" by (simp add: fired_voice_clip)
    with True a show ?thesis by simp
  next
    case False
    with a Cons show ?thesis by (auto split: if_splits)
  qed
qed

lemma fired_only_at_threshold:
  "n \<in> set (fired (play_time_notification files r total_seconds)) \<Longrightarrow> r = threshold total_seconds n"
  using first_played_fired_threshold [of n files "notification_checks r total_seconds"]
  by (auto simp: play_time_notification_def notification_checks_def Let_def)












section \<open>Facts about the state\<close>

lemma emit_Nil: "emit [] st = st"
  by (simp add: emit_def)

lemma emit_emit: "emit b (emit a st) = emit (a @ b) st"
  by (simp add: emit_def)

lemma emit_fields:
  "is_running (emit evs st) = is_running st"
  "is_paused (emit evs st) = is_paused st"
  "old_settings (emit evs st) = old_settings st"
  "reminder_active (emit evs st) = reminder_active st"
  "reminder_thread (emit evs st) = reminder_thread st"
  "tty (emit evs st) = tty st"
  "threads (emit evs st) = threads st"
  "log_file (emit evs st) = log_file st"
  "trace (emit evs st) = trace st @ evs"
  by (simp_all add: emit_def)

text \<open>
  Claim C10. Toggling the pause twice gives back the pause state, and one toggle
  always changes it.
\<close>

theorem toggle_pause_involution:
  "is_paused (toggle_pause (toggle_pause st)) = is_paused st \<and>
   is_paused (toggle_pause st) \<noteq> is_paused st"
  by (simp add: toggle_pause_def emit_fields Let_def)


section \<open>The loop, round by round\<close>

lemma loop_body_idle:
  "\<not> is_paused st \<Longrightarrow>
   loop_body env total_seconds idle r st = (Ongoing, r - 1, emit (tick_events env total_seconds r) st)"
  by (simp add: loop_body_def idle_def check_keyboard_input_def display_timer_def
      tick_events_def emit_emit Let_def)

lemma loop_idle_run:
  "is_running st \<Longrightarrow> \<not> is_paused st \<Longrightarrow> int k \<le> r \<Longrightarrow>
   countdown_loop env total_seconds (replicate k idle @ cs) r st =
   countdown_loop env total_seconds cs (r - int k) (emit (run_events env total_seconds k r) st)"
proof (induction k arbitrary: r st)
  case 0
  then show ?case by (simp add: emit_Nil)
next
  case (Suc k)
  have "countdown_loop env total_seconds (replicate (Suc k) idle @ cs) r st =
        countdown_loop env total_seconds (replicate k idle @ cs) (r - 1)
          (emit (tick_events env total_seconds r) st)"
    using Suc.prems by (simp add: loop_body_idle)
  also have "\<dots> = countdown_loop env total_seconds cs (r - 1 - int k)
          (emit (run_events env total_seconds k (r - 1)) (emit (tick_events env total_seconds r) st))"
    using Suc.prems by (intro Suc.IH) (simp_all add: emit_fields)
  finally show ?case by (simp add: emit_emit algebra_simps)
qed

lemma loop_body_paused:
  "is_paused st \<Longrightarrow> check_keyboard_input env k \<noteq> Some ''p'' \<Longrightarrow>
   loop_body env total_seconds (k, Calm) r st = (Ongoing, r, emit [Render r True, SleepTenth] st)"
  by (simp add: loop_body_def display_timer_def emit_emit Let_def emit_fields)

lemma loop_paused_run:
  "is_running st \<Longrightarrow> is_paused st \<Longrightarrow> 0 < r \<Longrightarrow>
   \<forall>k \<in> set ks. check_keyboard_input env k \<noteq> Some ''p'' \<Longrightarrow>
   countdown_loop env total_seconds (map (\<lambda>k. (k, Calm)) ks @ cs) r st =
   countdown_loop env total_seconds cs r
     (emit (concat (replicate (length ks) [Render r True, SleepTenth])) st)"
proof (induction ks arbitrary: st)
  case Nil
  then show ?case by (simp add: emit_Nil)
next
  case (Cons k ks)
  have "countdown_loop env total_seconds (map (\<lambda>k. (k, Calm)) (k # ks) @ cs) r st =
        countdown_loop env total_seconds (map (\<lambda>k. (k, Calm)) ks @ cs) r
          (emit [Render r True, SleepTenth] st)"
    using Cons.prems by (simp add: loop_body_paused)
  also have "\<dots> = countdown_loop env total_seconds cs r
     (emit (concat (replicate (length ks) [Render r True, SleepTenth]))
        (emit [Render r True, SleepTenth] st))"
    using Cons.prems by (intro Cons.IH) (simp_all add: emit_fields)
  finally show ?case by (simp add: emit_emit)
qed

lemma loop_body_pause_key:
  "\<not> is_paused st \<Longrightarrow> check_keyboard_input env k = Some ''p'' \<Longrightarrow>
   loop_body env total_seconds (k, Calm) r st =
     (Ongoing, r, emit [PausedMsg, Render r True, Render r True, SleepTenth] (st\<lparr>is_paused := True\<rparr>))"
  by (simp add: loop_body_def display_timer_def toggle_pause_def emit_emit Let_def emit_fields)

lemma loop_body_resume_key:
  "is_paused st \<Longrightarrow> check_keyboard_input env k = Some ''p'' \<Longrightarrow>
   loop_body env total_seconds (k, Calm) r st =
     (Ongoing, r - 1,
      emit (ResumedMsg # Render r False # tick_events env total_seconds r) (st\<lparr>is_paused := False\<rparr>))"
  by (simp add: loop_body_def display_timer_def toggle_pause_def emit_emit Let_def emit_fields
      tick_events_def)



section \<open>Counting events\<close>

lemma fired_nil_audio [simp]:
  "fired (play_beep env) = []" "fired (play_sound env TimerEnd) = []"
  "fired (interrupted_sound env TimerEnd) = []" "fired (reminder_playback env) = []"
  by (simp_all add: play_beep_def play_sound_def interrupted_sound_def reminder_playback_def
      split: file_status.splits)

lemma ticks_simps [simp]:
  "ticks [] = 0" "ticks (e # es) = (if e = Sleep1 then 1 else 0) + ticks es"
  "ticks (a @ b) = ticks a + ticks b"
  by (simp_all add: ticks_def)

lemma releases_simps [simp]:
  "releases [] = 0"
  "releases (e # es) = (case e of Restored _ \<Rightarrow> 1 | _ \<Rightarrow> 0) + releases es"
  "releases (a @ b) = releases a + releases b"
  by (simp_all add: releases_def split: event.splits)

lemma acquisitions_simps [simp]:
  "acquisitions [] = 0"
  "acquisitions (e # es) = (if e = SetCbreak then 1 else 0) + acquisitions es"
  "acquisitions (a @ b) = acquisitions a + acquisitions b"
  by (simp_all add: acquisitions_def)

lemma audio_only_voice_clip:
  "voice_clip files n = Some evs \<Longrightarrow> set evs \<subseteq> insert Play (insert AwaitIdle (insert AudioError (range Load)))"
  by (auto simp: voice_clip_def split: file_status.splits if_splits)

lemma audio_only_first_played:
  "set (first_played files cs) \<subseteq> insert Play (insert AwaitIdle (insert AudioError (range Load)))"
proof (induction cs)
  case Nil
  show ?case by simp
next
  case (Cons a cs)
  obtain c n where a: "a = (c, n)" by (cases a)
  show ?case
  proof (cases "voice_clip files n")
    case None
    with a Cons show ?thesis by simp
  next
    case (Some evs)
    with a Cons audio_only_voice_clip [OF Some] show ?thesis by simp
  qed
qed

lemma audio_only_beep:
  "set (play_beep env) \<subseteq> insert Play (insert AwaitIdle (insert AudioError (range Load)))"
  by (auto simp: play_beep_def split: file_status.splits)

lemma audio_counts:
  assumes "set evs \<subseteq> insert Play (insert AwaitIdle (insert AudioError (range Load)))"
  shows "ticks evs = 0" "releases evs = 0" "acquisitions evs = 0"
    "CompletionScreen \<notin> set evs"
proof -
  have "\<forall>e \<in> set evs. e \<noteq> Sleep1 \<and> e \<noteq> SetCbreak \<and> (\<forall>a. e \<noteq> Restored a) \<and> e \<noteq> CompletionScreen"
    using assms by auto
  then show "ticks evs = 0" "releases evs = 0" "acquisitions evs = 0"
    "CompletionScreen \<notin> set evs"
    by (auto simp: ticks_def releases_def acquisitions_def filter_empty_conv split: event.splits)
qed

lemma notification_counts:
  "ticks (play_time_notification files r t) = 0"
  "releases (play_time_notification files r t) = 0"
  "acquisitions (play_time_notification files r t) = 0"
  "CompletionScreen \<notin> set (play_time_notification files r t)"
  unfolding play_time_notification_def
  by (rule audio_counts [OF audio_only_first_played])+

lemmas beep_counts = audio_counts [OF audio_only_beep]

lemma tick_events_counts [simp]:
  "ticks (tick_events env t r) = 1" "releases (tick_events env t r) = 0"
  "acquisitions (tick_events env t r) = 0" "CompletionScreen \<notin> set (tick_events env t r)"
  by (simp_all add: tick_events_def notification_counts beep_counts)

lemma run_events_counts [simp]:
  "ticks (run_events env t k r) = k" "releases (run_events env t k r) = 0"
  "acquisitions (run_events env t k r) = 0" "CompletionScreen \<notin> set (run_events env t k r)"
  by (induction k arbitrary: r) simp_all

lemma audio_quiet [simp]:
  "ticks (play_sound env s) = 0" "releases (play_sound env s) = 0"
  "acquisitions (play_sound env s) = 0"
  "ticks (interrupted_sound env s) = 0" "releases (interrupted_sound env s) = 0"
  "acquisitions (interrupted_sound env s) = 0"
  by (simp_all add: play_sound_def interrupted_sound_def split: file_status.splits)

lemma pause_events_quiet:
  "fired (pause_events r k) = []" "ticks (pause_events r k) = 0"
  by (induction k) (simp_all add: pause_events_def)

section \<open>What each step changes and what it leaves alone\<close>

lemma display_fields:
  "is_running (display_timer r st) = is_running st"
  "is_paused (display_timer r st) = is_paused st"
  "old_settings (display_timer r st) = old_settings st"
  "reminder_active (display_timer r st) = reminder_active st"
  "reminder_thread (display_timer r st) = reminder_thread st"
  "tty (display_timer r st) = tty st"
  "threads (display_timer r st) = threads st"
  "log_file (display_timer r st) = log_file st"
  "trace (display_timer r st) = trace st @ [Render r (is_paused st)]"
  by (simp_all add: display_timer_def emit_fields)

lemma toggle_fields:
  "is_running (toggle_pause st) = is_running st"
  "is_paused (toggle_pause st) = (\<not> is_paused st)"
  "old_settings (toggle_pause st) = old_settings st"
  "reminder_active (toggle_pause st) = reminder_active st"
  "reminder_thread (toggle_pause st) = reminder_thread st"
  "tty (toggle_pause st) = tty st"
  "threads (toggle_pause st) = threads st"
  "log_file (toggle_pause st) = log_file st"
  "trace (toggle_pause st) = trace st @ [if is_paused st then ResumedMsg else PausedMsg]"
  by (simp_all add: toggle_pause_def emit_fields Let_def)

text \<open>What one round of the loop adds to the trace.\<close>

lemma loop_body_effect:
  assumes "loop_body env t c r st = (f, r', st')"
  shows "is_running st' = is_running st \<and> old_settings st' = old_settings st \<and>
         reminder_active st' = reminder_active st \<and> reminder_thread st' = reminder_thread st \<and>
         tty st' = tty st \<and> threads st' = threads st \<and> log_file st' = log_file st"
    and "\<exists>evs. trace st' = trace st @ evs \<and> releases evs = 0 \<and> acquisitions evs = 0 \<and>
           CompletionScreen \<notin> set evs \<and>
           (fired evs = [] \<and> r' = r \<or>
            fired evs = fired (play_time_notification (sound_files env) r t) \<and>
              (f = Ongoing \<longrightarrow> r' = r - 1) \<and> r' \<le> r)"
    and "snd c = CtrlC \<Longrightarrow> f = Interrupted \<and> r' = r"
    and "snd c = Crash \<Longrightarrow> f = Faulted \<and> r' = r"
  using assms
  by (auto simp: loop_body_def Let_def emit_fields display_fields toggle_fields fired_append
      notification_counts beep_counts
      split: if_splits)

lemma count_fired_notification:
  "count_list (fired (play_time_notification files r t)) n \<le> (if threshold t n = r then 1 else 0)"
proof (cases "n \<in> set (fired (play_time_notification files r t))")
  case True
  then have "r = threshold t n" by (rule fired_only_at_threshold)
  moreover have "count_list (fired (play_time_notification files r t)) n \<le> 1"
    using count_le_length [of "fired (play_time_notification files r t)" n]
      first_played_fired_le [of files "notification_checks r t"]
    by (simp add: play_time_notification_def)
  ultimately show ?thesis by simp
next
  case False
  then show ?thesis by simp
qed

lemma count_list_append_fired:
  "count_list (fired (a @ b)) n = count_list (fired a) n + count_list (fired b) n"
  by (simp add: fired_append)


lemma loop_fired_bound:
  assumes "countdown_loop env t cs r st = (ex, r', st')"
  shows "count_list (fired (trace st')) n \<le>
         count_list (fired (trace st)) n + (if threshold t n \<le> r then 1 else 0)"
  using assms
proof (induction cs arbitrary: r st)
  case Nil
  then show ?case by (auto split: if_splits)
next
  case (Cons c cs)
  show ?case
  proof (cases "0 < r \<and> is_running st")
    case False
    with Cons.prems show ?thesis by auto
  next
    case True
    obtain f r1 st1 where b: "loop_body env t c r st = (f, r1, st1)"
      by (cases "loop_body env t c r st") auto
    from loop_body_effect(2) [OF b] obtain evs where
      evs: "trace st1 = trace st @ evs"
        "fired evs = [] \<and> r1 = r \<or>
         fired evs = fired (play_time_notification (sound_files env) r t) \<and>
           (f = Ongoing \<longrightarrow> r1 = r - 1) \<and> r1 \<le> r"
      by blast
    have one: "count_list (fired (trace st1)) n \<le>
               count_list (fired (trace st)) n + (if threshold t n = r then 1 else 0)"
      using evs count_fired_notification [of "sound_files env" r t n]
      by (auto simp: fired_append)
    show ?thesis
    proof (cases f)
      case Ongoing
      with Cons.prems True b have run: "countdown_loop env t cs r1 st1 = (ex, r', st')" by simp
      note ih = Cons.IH [OF run]
      from evs(2) show ?thesis
      proof
        assume "fired evs = [] \<and> r1 = r"
        with ih evs(1) show ?thesis by (simp add: fired_append)
      next
        assume a: "fired evs = fired (play_time_notification (sound_files env) r t) \<and>
                   (f = Ongoing \<longrightarrow> r1 = r - 1) \<and> r1 \<le> r"
        with Ongoing have "r1 = r - 1" by simp
        with ih one show ?thesis by (auto split: if_splits)
      qed
    next
      case Interrupted
      with Cons.prems True b have "st' = st1" by simp
      with one show ?thesis by (auto split: if_splits)
    next
      case Faulted
      with Cons.prems True b have "st' = st1" by simp
      with one show ?thesis by (auto split: if_splits)
    qed
  qed
qed


lemma restore_fields:
  "is_running (restore_terminal env st) = is_running st"
  "is_paused (restore_terminal env st) = is_paused st"
  "reminder_active (restore_terminal env st) = reminder_active st"
  "reminder_thread (restore_terminal env st) = reminder_thread st"
  "threads (restore_terminal env st) = threads st"
  "log_file (restore_terminal env st) = log_file st"
  "fired (trace (restore_terminal env st)) = fired (trace st)"
  "ticks (trace (restore_terminal env st)) = ticks (trace st)"
  "acquisitions (trace (restore_terminal env st)) = acquisitions (trace st)"
  by (simp_all add: restore_terminal_def emit_fields fired_append split: option.splits)

lemma restore_terminal_fields:
  "old_settings (restore_terminal env st) =
     (if \<not> win32 env \<and> tcsetattr_ok env then None else old_settings st)"
  "tty (restore_terminal env st) =
     (case old_settings st of
        None \<Rightarrow> tty st
      | Some saved \<Rightarrow> if \<not> win32 env \<and> tcsetattr_ok env then saved else tty st)"
  "releases (trace (restore_terminal env st)) =
     releases (trace st) +
     (if old_settings st \<noteq> None \<and> \<not> win32 env \<and> tcsetattr_ok env then 1 else 0)"
  by (simp_all add: restore_terminal_def emit_fields split: option.splits)

lemma acquire_fields:
  "is_running (acquire_terminal env st) = is_running st"
  "is_paused (acquire_terminal env st) = is_paused st"
  "reminder_active (acquire_terminal env st) = reminder_active st"
  "reminder_thread (acquire_terminal env st) = reminder_thread st"
  "threads (acquire_terminal env st) = threads st"
  "log_file (acquire_terminal env st) = log_file st"
  "fired (trace (acquire_terminal env st)) = fired (trace st)"
  "ticks (trace (acquire_terminal env st)) = ticks (trace st)"
  "releases (trace (acquire_terminal env st)) = releases (trace st)"
  by (simp_all add: acquire_terminal_def emit_fields fired_append Let_def)


lemma save_logs_fields:
  "is_running (save_logs env logs st) = is_running st"
  "is_paused (save_logs env logs st) = is_paused st"
  "old_settings (save_logs env logs st) = old_settings st"
  "reminder_active (save_logs env logs st) = reminder_active st"
  "reminder_thread (save_logs env logs st) = reminder_thread st"
  "tty (save_logs env logs st) = tty st"
  "threads (save_logs env logs st) = threads st"
  "fired (trace (save_logs env logs st)) = fired (trace st)"
  "ticks (trace (save_logs env logs st)) = ticks (trace st)"
  "releases (trace (save_logs env logs st)) = releases (trace st)"
  "acquisitions (trace (save_logs env logs st)) = acquisitions (trace st)"
  "log_file (save_logs env logs st) = (if log_writable env then Some logs else log_file st)"
  by (simp_all add: save_logs_def emit_fields fired_append)

lemma log_stop_fields:
  "is_running (if_log_number ln (\<lambda>n. log_timer_stop env n r) st) = is_running st"
  "is_paused (if_log_number ln (\<lambda>n. log_timer_stop env n r) st) = is_paused st"
  "old_settings (if_log_number ln (\<lambda>n. log_timer_stop env n r) st) = old_settings st"
  "reminder_active (if_log_number ln (\<lambda>n. log_timer_stop env n r) st) = reminder_active st"
  "reminder_thread (if_log_number ln (\<lambda>n. log_timer_stop env n r) st) = reminder_thread st"
  "tty (if_log_number ln (\<lambda>n. log_timer_stop env n r) st) = tty st"
  "threads (if_log_number ln (\<lambda>n. log_timer_stop env n r) st) = threads st"
  "fired (trace (if_log_number ln (\<lambda>n. log_timer_stop env n r) st)) = fired (trace st)"
  "ticks (trace (if_log_number ln (\<lambda>n. log_timer_stop env n r) st)) = ticks (trace st)"
  "releases (trace (if_log_number ln (\<lambda>n. log_timer_stop env n r) st)) = releases (trace st)"
  "acquisitions (trace (if_log_number ln (\<lambda>n. log_timer_stop env n r) st)) =
     acquisitions (trace st)"
  by (simp_all add: if_log_number_def log_timer_stop_def save_logs_fields split: option.splits)

lemma log_complete_fields:
  "is_running (if_log_number ln (log_timer_complete env) st) = is_running st"
  "is_paused (if_log_number ln (log_timer_complete env) st) = is_paused st"
  "old_settings (if_log_number ln (log_timer_complete env) st) = old_settings st"
  "reminder_active (if_log_number ln (log_timer_complete env) st) = reminder_active st"
  "reminder_thread (if_log_number ln (log_timer_complete env) st) = reminder_thread st"
  "tty (if_log_number ln (log_timer_complete env) st) = tty st"
  "threads (if_log_number ln (log_timer_complete env) st) = threads st"
  "fired (trace (if_log_number ln (log_timer_complete env) st)) = fired (trace st)"
  "ticks (trace (if_log_number ln (log_timer_complete env) st)) = ticks (trace st)"
  "releases (trace (if_log_number ln (log_timer_complete env) st)) = releases (trace st)"
  "acquisitions (trace (if_log_number ln (log_timer_complete env) st)) =
     acquisitions (trace st)"
  by (simp_all add: if_log_number_def log_timer_complete_def save_logs_fields
      split: option.splits)

lemma on_interrupt_fields:
  "old_settings (on_interrupt env ln r st) = old_settings (restore_terminal env st)"
  "tty (on_interrupt env ln r st) = tty (restore_terminal env st)"
  "releases (trace (on_interrupt env ln r st)) = releases (trace (restore_terminal env st))"
  "acquisitions (trace (on_interrupt env ln r st)) = acquisitions (trace st)"
  "fired (trace (on_interrupt env ln r st)) = fired (trace st)"
  by (simp_all add: on_interrupt_def Let_def log_stop_fields emit_fields restore_fields
      restore_terminal_fields fired_append split: option.splits)

lemma complete_fields:
  "old_settings (complete env ln st) = old_settings st"
  "tty (complete env ln st) = tty st"
  "releases (trace (complete env ln st)) = releases (trace st)"
  "acquisitions (trace (complete env ln st)) = acquisitions (trace st)"
  "fired (trace (complete env ln st)) = fired (trace st)"
  by (simp_all add: complete_def Let_def start_reminder_thread_def log_complete_fields
      emit_fields fired_append)




lemma log_complete_trace:
  "\<exists>evs. trace (if_log_number ln (log_timer_complete env) st) = trace st @ evs \<and>
         ticks evs = 0 \<and> CompletionScreen \<notin> set evs"
  by (simp add: if_log_number_def log_timer_complete_def save_logs_def emit_fields
      split: option.splits)

lemma log_file_complete:
  "log_file (if_log_number ln (log_timer_complete env) st) =
     (case ln of
        None \<Rightarrow> log_file st
      | Some n \<Rightarrow>
          if n \<noteq> 0 \<and> log_writable env
          then Some (update_first (\<lambda>l. number l = Some n)
                       (\<lambda>l. l\<lparr>status := Finished, completed := True\<rparr>)
                       (case log_file st of None \<Rightarrow> [] | Some logs \<Rightarrow> logs))
          else log_file st)"
  by (simp add: if_log_number_def log_timer_complete_def save_logs_fields load_logs_def
      split: option.splits)


lemma complete_effect:
  "reminder_active (complete env ln st)"
  "threads (complete env ln st) = threads st @ [FirstWait]"
  "reminder_thread (complete env ln st) = Some (length (threads st))"
  "log_file (complete env ln st) = log_file (if_log_number ln (log_timer_complete env) st)"
  "\<exists>evs. trace (complete env ln st) =
           trace st @ CompletionScreen # play_sound env TimerEnd @ evs \<and>
         ticks evs = 0 \<and> CompletionScreen \<notin> set evs"
proof -
  show "reminder_active (complete env ln st)"
    "threads (complete env ln st) = threads st @ [FirstWait]"
    "reminder_thread (complete env ln st) = Some (length (threads st))"
    by (simp_all add: complete_def Let_def start_reminder_thread_def log_complete_fields
        emit_fields)
  show "log_file (complete env ln st) = log_file (if_log_number ln (log_timer_complete env) st)"
    by (simp add: complete_def Let_def start_reminder_thread_def log_file_complete emit_fields
        split: option.splits)
  from log_complete_trace [of ln env "emit (CompletionScreen # play_sound env TimerEnd) st"]
  show "\<exists>evs. trace (complete env ln st) =
           trace st @ CompletionScreen # play_sound env TimerEnd @ evs \<and>
         ticks evs = 0 \<and> CompletionScreen \<notin> set evs"
    by (auto simp: complete_def Let_def start_reminder_thread_def emit_fields)
qed



section \<open>A session without key or interrupt\<close>

lemma countdown_idle:
  assumes "1 \<le> t"
  shows "countdown env t ln (replicate (nat t) idle @ extra) Calm st =
         (Completed,
          restore_terminal env (complete env ln (restore_terminal env
            (emit (run_events env t (nat t) t)
               (acquire_terminal env (st\<lparr>is_running := True, is_paused := False\<rparr>))))))"
proof -
  define st0 where "st0 = acquire_terminal env (st\<lparr>is_running := True, is_paused := False\<rparr>)"
  have st0: "is_running st0" "\<not> is_paused st0"
    by (simp_all add: st0_def acquire_fields)
  have "countdown_loop env t (replicate (nat t) idle @ extra) t st0 =
        countdown_loop env t extra (t - int (nat t)) (emit (run_events env t (nat t) t) st0)"
    using st0 assms by (intro loop_idle_run) simp_all
  also have "\<dots> = (LoopDone, 0, emit (run_events env t (nat t) t) st0)"
    using assms by (cases extra) simp_all
  finally show ?thesis
    using st0 by (simp add: countdown_def st0_def [symmetric] emit_fields)
qed



section \<open>Pause and resume\<close>

text \<open>
  Claim C5. A pause key at \<open>r > 0\<close> remaining seconds followed by any number of rounds
  without a pause key leaves the remaining time at \<open>r\<close>: those rounds only redraw the
  screen and sleep a tenth of a second, they start no notification and count no second.
  The round of the next pause key runs the tick for \<open>r\<close> itself and goes on from
  \<open>r - 1\<close>.
\<close>

theorem pause_freezes_remaining:
  assumes r: "0 < r" and running: "is_running st" "\<not> is_paused st"
    and p: "check_keyboard_input env p = Some ''p''"
    and ks: "\<forall>k \<in> set ks. check_keyboard_input env k \<noteq> Some ''p''"
  shows "countdown_loop env t ((p, Calm) # map (\<lambda>k. (k, Calm)) ks) r st =
           (LoopStarved, r, emit (pause_events r (length ks)) (st\<lparr>is_paused := True\<rparr>)) \<and>
         fired (pause_events r (length ks)) = [] \<and> ticks (pause_events r (length ks)) = 0 \<and>
         countdown_loop env t ((p, Calm) # map (\<lambda>k. (k, Calm)) ks @ (p, Calm) # cs) r st =
           countdown_loop env t cs (r - 1)
             (emit (pause_events r (length ks) @
                    ResumedMsg # Render r False # tick_events env t r) st)"
proof -
  define st1 where
    "st1 = emit [PausedMsg, Render r True, Render r True, SleepTenth] (st\<lparr>is_paused := True\<rparr>)"
  define st2 where
    "st2 = emit (concat (replicate (length ks) [Render r True, SleepTenth])) st1"
  have st1: "is_running st1" "is_paused st1"
    using running by (simp_all add: st1_def emit_fields)
  have st2: "is_running st2" "is_paused st2"
    using st1 by (simp_all add: st2_def emit_fields)
  have st2_eq: "st2 = emit (pause_events r (length ks)) (st\<lparr>is_paused := True\<rparr>)"
    by (simp add: st2_def st1_def emit_emit pause_events_def)
  have first: "countdown_loop env t ((p, Calm) # cs') r st = countdown_loop env t cs' r st1"
    for cs'
    using r running p by (simp add: loop_body_pause_key st1_def)
  have paused: "countdown_loop env t (map (\<lambda>k. (k, Calm)) ks @ cs') r st1 =
                countdown_loop env t cs' r st2" for cs'
    unfolding st2_def using st1 r ks by (intro loop_paused_run) simp_all
  have a: "countdown_loop env t ((p, Calm) # map (\<lambda>k. (k, Calm)) ks) r st =
           (LoopStarved, r, st2)"
    using first [of "map (\<lambda>k. (k, Calm)) ks"] paused [of "[]"] st2 r by simp
  have "countdown_loop env t ((p, Calm) # map (\<lambda>k. (k, Calm)) ks @ (p, Calm) # cs) r st =
        countdown_loop env t ((p, Calm) # cs) r st2"
    using first [of "map (\<lambda>k. (k, Calm)) ks @ (p, Calm) # cs"] paused [of "(p, Calm) # cs"]
    by simp
  also have "\<dots> = countdown_loop env t cs (r - 1)
      (emit (ResumedMsg # Render r False # tick_events env t r) (st2\<lparr>is_paused := False\<rparr>))"
    using st2 r p by (simp add: loop_body_resume_key)
  also have "st2\<lparr>is_paused := False\<rparr> = emit (pause_events r (length ks)) st"
    using running by (simp add: st2_eq emit_def)
  finally have b:
    "countdown_loop env t ((p, Calm) # map (\<lambda>k. (k, Calm)) ks @ (p, Calm) # cs) r st =
     countdown_loop env t cs (r - 1)
       (emit (pause_events r (length ks) @ ResumedMsg # Render r False # tick_events env t r) st)"
    by (simp add: emit_emit)
  from a b show ?thesis by (simp add: st2_eq pause_events_quiet)
qed

lemma pause_key:
  "\<not> win32 env \<Longrightarrow> check_keyboard_input env (Typed CHR ''p'') = Some ''p''"
  "\<not> win32 env \<Longrightarrow> check_keyboard_input env (Typed CHR ''P'') = Some ''p''"
  "check_keyboard_input env Nothing \<noteq> Some ''p''"
  "check_keyboard_input env (Typed CHR ''x'') \<noteq> Some ''p''"
  "check_keyboard_input env EndOfFile \<noteq> Some ''p''"
  "check_keyboard_input env PollError \<noteq> Some ''p''"
  by (simp_all add: check_keyboard_input_def py_lower_def)

theorem pause_freezes_remaining_witness:
  "countdown_loop sound_env 20
     ((Typed CHR ''p'', Calm) # map (\<lambda>k. (k, Calm)) [Nothing, Typed CHR ''x''])
     10 (fresh_timer\<lparr>is_running := True\<rparr>) =
   (LoopStarved, 10,
    emit (pause_events 10 (length [Nothing, Typed CHR ''x'']))
      (fresh_timer\<lparr>is_running := True, is_paused := True\<rparr>)) \<and>
   fired (pause_events 10 (length [Nothing, Typed CHR ''x''])) = [] \<and>
   ticks (pause_events 10 (length [Nothing, Typed CHR ''x''])) = 0 \<and>
   countdown_loop sound_env 20
     ((Typed CHR ''p'', Calm) # map (\<lambda>k. (k, Calm)) [Nothing, Typed CHR ''x''] @
      (Typed CHR ''p'', Calm) # [])
     10 (fresh_timer\<lparr>is_running := True\<rparr>) =
   countdown_loop sound_env 20 [] (10 - 1)
     (emit (pause_events 10 (length [Nothing, Typed CHR ''x'']) @
            ResumedMsg # Render 10 False # tick_events sound_env 20 10)
        (fresh_timer\<lparr>is_running := True\<rparr>))"
proof -
  have nw: "\<not> win32 sound_env" by (simp add: sound_env_def)
  have h1: "(0::int) < 10" by simp
  have h2: "is_running (fresh_timer\<lparr>is_running := True\<rparr>)" by simp
  have h3: "\<not> is_paused (fresh_timer\<lparr>is_running := True\<rparr>)" by (simp add: fresh_timer_def)
  have h4: "check_keyboard_input sound_env (Typed CHR ''p'') = Some ''p''"
    using nw by (rule pause_key)
  have h5: "\<forall>k \<in> set [Nothing, Typed CHR ''x'']. check_keyboard_input sound_env k \<noteq> Some ''p''"
    by (simp add: pause_key)
  show ?thesis by (rule pause_freezes_remaining [OF h1 h2 h3 h4 h5])
qed

section \<open>Notifications over a session\<close>

text \<open>
  Claim C4. Whatever the keyboard polls, pauses, resumes, interrupts and faults of a
  session are, each notification is started at most once in it.
\<close>

theorem notification_fires_at_most_once:
  "count_list (fired (trace (snd (countdown env t ln cycles ending st)))) n \<le>
   count_list (fired (trace st)) n + 1"
proof -
  define st0 where "st0 = acquire_terminal env (st\<lparr>is_running := True, is_paused := False\<rparr>)"
  obtain ex r st1 where loop: "countdown_loop env t cycles t st0 = (ex, r, st1)"
    by (cases "countdown_loop env t cycles t st0") auto
  have "fired (trace st0) = fired (trace st)"
    by (simp add: st0_def acquire_fields)
  with loop_fired_bound [OF loop, of n]
  have bound: "count_list (fired (trace st1)) n \<le> count_list (fired (trace st)) n + 1"
    by (simp split: if_splits)
  have "fired (trace (snd (countdown env t ln cycles ending st))) = fired (trace st1)"
    using loop
    by (simp add: countdown_def st0_def [symmetric] Let_def restore_fields on_interrupt_fields
        complete_fields emit_fields fired_append
        split: loop_exit.splits incident.splits)
  with bound show ?thesis by simp
qed

theorem notification_fires_at_most_once_witness:
  "count_list (fired (trace (snd (countdown sound_env 11 None
       [idle, (Typed CHR ''p'', Calm), (Nothing, Calm), (Typed CHR ''p'', Calm), idle]
       Calm fresh_timer)))) Sec10 = 1"
proof -
  have "count_list (fired (trace (snd (countdown sound_env 11 None
       [idle, (Typed CHR ''p'', Calm), (Nothing, Calm), (Typed CHR ''p'', Calm), idle]
       Calm fresh_timer)))) Sec10 \<ge> 1"
    by (simp add: countdown_def acquire_terminal_def sound_env_def fresh_timer_def idle_def
        loop_body_def check_keyboard_input_def py_lower_def display_timer_def toggle_pause_def
        emit_def play_time_notification_def notification_checks_def
        is_overlapping_with_other_notifications_def notification_times_def voice_clip_def
        Let_def)
  with notification_fires_at_most_once [of sound_env 11 None
      "[idle, (Typed CHR ''p'', Calm), (Nothing, Calm), (Typed CHR ''p'', Calm), idle]"
      Calm fresh_timer Sec10]
  show ?thesis by (simp add: fresh_timer_def)
qed

section \<open>Cancellation\<close>





section \<open>The terminal\<close>





section \<open>The reminder threads\<close>

lemma session_start_fields:
  "threads (snd (log_timer_start env t what st)) = threads st"
  "reminder_active (snd (log_timer_start env t what st)) = reminder_active st"
  by (simp_all add: log_timer_start_def Let_def save_logs_fields)

lemma session_stops_reminder_first:
  "session env t what cs e st =
     countdown env t (Some (fst (log_timer_start env t what (get_user_input st)))) cs e
       (session_start env t what st)"
  "\<not> reminder_active (session_start env t what st)"
  "threads (session_start env t what st) = threads st"
  by (simp_all add: session_def session_start_def Let_def get_user_input_def
      stop_reminder_thread_def emit_fields session_start_fields split: prod.splits)

lemma session_idle:
  assumes "1 \<le> t"
  shows "fst (session env t what (replicate (nat t) idle) Calm st) = Completed"
    "threads (snd (session env t what (replicate (nat t) idle) Calm st)) = threads st @ [FirstWait]"
    "reminder_active (snd (session env t what (replicate (nat t) idle) Calm st))"
  using countdown_idle [OF assms, of env
      "Some (fst (log_timer_start env t what (get_user_input st)))" "[]"
      "session_start env t what st"]
  by (simp_all add: session_stops_reminder_first restore_fields complete_effect emit_fields
      acquire_fields)


lemma thread_steps_simps:
  "thread_steps env i 0 st = st"
  "thread_steps env i (Suc k) st = thread_steps env i k (thread_step env i st)"
  by (simp_all add: thread_steps_def funpow_swap1)




text \<open>
  Claim C8, evaluated. \<^verbatim>\<open>get_user_input\<close> does stop the reminder before the next
  countdown, yet the thread of the first session is still alive then, and when the
  second session completes while that thread sleeps there are two live reminder threads
  and the flag is set again: the first thread wakes, finds the flag set and plays, and
  so does the second.
\<close>

theorem restart_leaves_two_reminder_loops:
  "fst (session sound_env 1 ''a'' [idle] Calm fresh_timer) = Completed \<and>
   threads first_run = [FirstWait] \<and>
   \<not> reminder_active (get_user_input first_run) \<and>
   alive (get_user_input first_run) = 1 \<and>
   fst (session sound_env 2 ''b'' [idle, idle] Calm first_run) = Completed \<and>
   threads second_run = [FirstWait, FirstWait] \<and>
   alive second_run = 2 \<and>
   reminder_active second_run \<and>
   threads (thread_steps sound_env 0 2 second_run) = [Playing, FirstWait] \<and>
   threads (thread_steps sound_env 1 2 (thread_steps sound_env 0 2 second_run)) =
     [Playing, Playing]"
proof -
  have f: "threads fresh_timer = []" by (simp add: fresh_timer_def)
  have a: "fst (session sound_env 1 ''a'' [idle] Calm fresh_timer) = Completed"
    using session_idle(1) [of 1 sound_env "''a''" fresh_timer] by simp
  have b: "threads first_run = [FirstWait]"
    using session_idle(2) [of 1 sound_env "''a''" fresh_timer] f by (simp add: first_run_def)
  have c: "\<not> reminder_active (get_user_input first_run)"
    "alive (get_user_input first_run) = 1"
    using b by (simp_all add: get_user_input_def stop_reminder_thread_def alive_def)
  have d: "fst (session sound_env 2 ''b'' [idle, idle] Calm first_run) = Completed"
    using session_idle(1) [of 2 sound_env "''b''" first_run] by (simp add: numeral_2_eq_2)
  have e: "threads second_run = [FirstWait, FirstWait]" "reminder_active second_run"
    using session_idle(2,3) [of 2 sound_env "''b''" first_run] b
    by (simp_all add: second_run_def numeral_2_eq_2)
  then have g: "alive second_run = 2" by (simp add: alive_def)
  have h: "threads (thread_steps sound_env 0 2 second_run) = [Playing, FirstWait]"
    using e by (simp add: thread_steps_simps numeral_2_eq_2 thread_step_def)
  have k: "threads (thread_steps sound_env 1 2 (thread_steps sound_env 0 2 second_run)) =
           [Playing, Playing]"
    using e by (simp add: thread_steps_simps numeral_2_eq_2 thread_step_def)
  from a b c d e g h k show ?thesis by blast
qed




end
